theory Spec2Isabelle
  imports Complex_Main "HOL-Library.Sublist"
begin

section \<open>The image registration engine\<close>

text \<open>
  A shallow embedding of \<^verbatim>\<open>image_registration/exceptions.py\<close>,
  \<^verbatim>\<open>image_registration/algorithms.py\<close> and \<^verbatim>\<open>image_registration/engine.py\<close>.

  Conventions of the embedding:
  \<^item> A Python \<^verbatim>\<open>float\<close> is modelled by the real number it denotes. The engine only
    compares floats and never computes with them. Both constructors that take floats
    reject a NaN (every comparison with it is false), so no NaN reaches a comparison
    of the engine through them.
  \<^item> The registry is a Python \<^verbatim>\<open>dict\<close>, whose iteration order is insertion order:
    it is an association list with the entries in that order.
  \<^item> A raised exception is a value: every operation that can raise returns
    \<open>exn + 'a\<close>, with \<open>Inl\<close> the exception.
  \<^item> A method that receives \<^verbatim>\<open>self\<close> and can change it returns the engine it leaves
    behind. \<^verbatim>\<open>register\<close> is modelled a second time over a store of objects, where the
    list it appends to is an object among the others.
  \<^item> A call of \<^verbatim>\<open>align\<close> returns or raises within \<^verbatim>\<open>Exception\<close>; the calls that an
    exception outside \<^verbatim>\<open>Exception\<close> leaves are modelled with \<open>register_raw\<close>.
  \<^item> The text of an exception is kept as the pieces of its f-string: the literal and
    string pieces as they are, the float and integer pieces as the number that is
    formatted and the format used.
  \<^item> Calls of the logger are left out: they change nothing the engine reads.
\<close>

subsection \<open>exceptions.py\<close>

datatype exn_class =
  ValueError | RuntimeError | AssertionError | AttributeError
  | RegistrationError | AlgorithmError | ConfigurationError

text \<open>
  \<open>issubclass c d\<close>: the class \<open>c\<close> is \<open>d\<close> or derives from it. \<^verbatim>\<open>AlgorithmError\<close> and
  \<^verbatim>\<open>ConfigurationError\<close> derive from \<^verbatim>\<open>RegistrationError\<close>; the built-in classes are
  unrelated to the three and to each other.
\<close>

fun issubclass :: "exn_class \<Rightarrow> exn_class \<Rightarrow> bool" where
  "issubclass AlgorithmError RegistrationError = True"
| "issubclass ConfigurationError RegistrationError = True"
| "issubclass c d = (c = d)"

datatype msg_part =
  Text string
  | FloatRepr real
  | Float3f real
  | IntRepr int

datatype exn = Exn (exn_class: exn_class) (message: "msg_part list")

text \<open>
  The string of a message is its pieces one after the other, each number formatted by
  Python: \<open>render num m\<close>, where \<open>num\<close> stands for Python's formatting of the numeric
  pieces. Whatever the number, its text is not empty and is made of the characters of
  \<open>numeric_chars\<close> (digits, sign, point, exponent, \<^verbatim>\<open>inf\<close>, \<^verbatim>\<open>nan\<close>):
  \<open>numeric_rendering num\<close>.
\<close>

fun piece :: "(msg_part \<Rightarrow> string) \<Rightarrow> msg_part \<Rightarrow> string" where
  "piece num (Text t) = t"
| "piece num p = num p"

definition render :: "(msg_part \<Rightarrow> string) \<Rightarrow> msg_part list \<Rightarrow> string" where
  "render num m = concat (map (piece num) m)"

definition numeric_chars :: string where
  "numeric_chars = ''0123456789.-+einfa''"

definition numeric_rendering :: "(msg_part \<Rightarrow> string) \<Rightarrow> bool" where
  "numeric_rendering num = (\<forall>p. num p \<noteq> [] \<and> set (num p) \<subseteq> set numeric_chars)"

text \<open>
  \<open>skeleton m\<close> is the string of the message with one mark \<open>None\<close> in the place of
  each number. \<open>mentions m s\<close>: the string \<open>s\<close> occurs, as a run of consecutive
  characters, in the text of the message outside the numbers. It then occurs in the
  string of the message; and a string without numeric characters that occurs in the
  string of the message occurs outside the numbers (lemmas \<open>mentions_render\<close> and
  \<open>render_mentions\<close> below).
\<close>

fun mark :: "msg_part \<Rightarrow> char option list" where
  "mark (Text t) = map Some t"
| "mark p = [None]"

definition skeleton :: "msg_part list \<Rightarrow> char option list" where
  "skeleton m = concat (map mark m)"

definition mentions :: "msg_part list \<Rightarrow> string \<Rightarrow> bool" where
  "mentions m s = sublist (map Some s) (skeleton m)"

text \<open>Python's \<^verbatim>\<open>sep.join(xs)\<close> on a list of strings.\<close>

fun join :: "string \<Rightarrow> string list \<Rightarrow> string" where
  "join sep [] = []"
| "join sep [x] = x"
| "join sep (x # y # ys) = x @ sep @ join sep (y # ys)"

subsection \<open>algorithms.py\<close>

record ('h, 'm) RegistrationResult =
  score :: real
  inlier_ratio :: real
  homography :: 'h
  matches_count :: int
  metadata :: "'m option"

text \<open>
  The dataclass constructor followed by \<^verbatim>\<open>__post_init__\<close>: the three checks in the
  order of the source, each raising \<^verbatim>\<open>ValueError\<close>.
\<close>

definition RegistrationResult_init ::
  "real \<Rightarrow> real \<Rightarrow> 'h \<Rightarrow> int \<Rightarrow> 'm option \<Rightarrow> exn + ('h, 'm) RegistrationResult" where
  "RegistrationResult_init s ir h mc md =
     (if \<not> (0 \<le> s \<and> s \<le> 1) then
        Inl (Exn ValueError [Text ''Score must be in [0.0, 1.0], got '', FloatRepr s])
      else if \<not> (0 \<le> ir \<and> ir \<le> 1) then
        Inl (Exn ValueError [Text ''Inlier ratio must be in [0.0, 1.0], got '', FloatRepr ir])
      else if mc < 0 then
        Inl (Exn ValueError [Text ''Matches count must be >= 0, got '', IntRepr mc])
      else
        Inr \<lparr>score = s, inlier_ratio = ir, homography = h, matches_count = mc,
             metadata = md\<rparr>)"

text \<open>
  What a call of \<^verbatim>\<open>align\<close> does within the classes of \<^verbatim>\<open>Exception\<close>: it returns a
  result or \<^verbatim>\<open>None\<close>, or it raises an exception of a class that derives from
  \<^verbatim>\<open>Exception\<close>, as all of \<open>exn_class\<close> do. The exceptions outside \<^verbatim>\<open>Exception\<close>
  come with \<open>call_outcome\<close> below. A call that never returns is outside the model.
\<close>

datatype ('h, 'm) align_outcome =
  Returns "('h, 'm) RegistrationResult option"
  | Raises exn

datatype ('i, 'h, 'm) AlgorithmBase =
  Algorithm (align: "'i \<Rightarrow> 'i \<Rightarrow> ('h, 'm) align_outcome")

subsection \<open>engine.py: the configuration and the output\<close>

record EngineConfig =
  min_score :: real
  min_inlier_ratio :: real
  enable_fallback :: bool

definition EngineConfig_init :: "real \<Rightarrow> real \<Rightarrow> bool \<Rightarrow> exn + EngineConfig" where
  "EngineConfig_init ms mir fb =
     (if \<not> (0 \<le> ms \<and> ms \<le> 1) then
        Inl (Exn ValueError [Text ''min_score must be in [0.0, 1.0], got '', FloatRepr ms])
      else if \<not> (0 \<le> mir \<and> mir \<le> 1) then
        Inl (Exn ValueError
               [Text ''min_inlier_ratio must be in [0.0, 1.0], got '', FloatRepr mir])
      else
        Inr \<lparr>min_score = ms, min_inlier_ratio = mir, enable_fallback = fb\<rparr>)"

text \<open>\<^verbatim>\<open>EngineConfig()\<close>: the field defaults, which pass both checks.\<close>

definition EngineConfig_default :: EngineConfig where
  "EngineConfig_default =
     \<lparr>min_score = 85 / 100, min_inlier_ratio = 6 / 10, enable_fallback = True\<rparr>"

record ('h, 'm) RegistrationOutput =
  algorithm :: string
  status :: string
  result :: "('h, 'm) RegistrationResult"
  attempts :: "string list"

subsection \<open>engine.py: the engine\<close>

text \<open>
  The engine object: the registry and the configuration. The type \<open>'a\<close> of the registered
  algorithms is \<open>('i, 'h, 'm) AlgorithmBase\<close>, except in the model of calls that a
  signal leaves.
\<close>

record 'a ImageRegistrationEngine =
  algorithms :: "(string \<times> 'a) list"
  config :: EngineConfig

text \<open>
  \<^verbatim>\<open>__init__\<close>: an empty dictionary is refused; \<^verbatim>\<open>config or EngineConfig()\<close> takes the
  defaults when no configuration is given.
\<close>

definition ImageRegistrationEngine_init ::
  "(string \<times> ('i, 'h, 'm) AlgorithmBase) list \<Rightarrow> EngineConfig option
     \<Rightarrow> exn + ('i, 'h, 'm) AlgorithmBase ImageRegistrationEngine" where
  "ImageRegistrationEngine_init algs cfg =
     (if List.null algs then
        Inl (Exn ConfigurationError [Text ''At least one algorithm must be provided''])
      else
        Inr \<lparr>algorithms = algs,
             config = (case cfg of None \<Rightarrow> EngineConfig_default | Some c \<Rightarrow> c)\<rparr>)"

definition is_acceptable ::
  "'a ImageRegistrationEngine \<Rightarrow> ('h, 'm) RegistrationResult \<Rightarrow> bool" where
  "is_acceptable self r =
     (score r \<ge> min_score (config self) \<and> inlier_ratio r \<ge> min_inlier_ratio (config self))"

text \<open>
  The \<^verbatim>\<open>for\<close> loop of \<^verbatim>\<open>register\<close> over \<^verbatim>\<open>self.algorithms.items()\<close>, with the three
  local variables as arguments. It leaves either through the \<^verbatim>\<open>return\<close> in its body or
  by running out of entries.
\<close>

datatype ('h, 'm) loop_exit =
  Return "('h, 'm) RegistrationOutput"
  | Exhausted "('h, 'm) RegistrationResult option" "string option" "string list"

fun register_loop ::
  "('i, 'h, 'm) AlgorithmBase ImageRegistrationEngine \<Rightarrow> 'i \<Rightarrow> 'i
     \<Rightarrow> (string \<times> ('i, 'h, 'm) AlgorithmBase) list
     \<Rightarrow> ('h, 'm) RegistrationResult option \<Rightarrow> string option \<Rightarrow> string list
     \<Rightarrow> ('h, 'm) loop_exit" where
  "register_loop self src_img ref_img [] best_result best_algorithm tried =
     Exhausted best_result best_algorithm tried"
| "register_loop self src_img ref_img ((name, algo) # rest) best_result best_algorithm tried =
     (let tried' = tried @ [name] in
      case align algo src_img ref_img of
        Raises e \<Rightarrow>
          register_loop self src_img ref_img rest best_result best_algorithm tried'
      | Returns None \<Rightarrow>
          register_loop self src_img ref_img rest best_result best_algorithm tried'
      | Returns (Some r) \<Rightarrow>
          (let better = (case best_result of None \<Rightarrow> True | Some b \<Rightarrow> score r > score b);
               best_result' = (if better then Some r else best_result);
               best_algorithm' = (if better then Some name else best_algorithm)
           in if is_acceptable self r then
                Return \<lparr>algorithm = name, status = ''accepted'', result = r,
                        attempts = tried'\<rparr>
              else
                register_loop self src_img ref_img rest best_result' best_algorithm' tried'))"

text \<open>
  \<^verbatim>\<open>register\<close>: the loop, then the three ways out after it. The second component is the
  engine after the call.
\<close>

definition register ::
  "('i, 'h, 'm) AlgorithmBase ImageRegistrationEngine \<Rightarrow> 'i \<Rightarrow> 'i
     \<Rightarrow> (exn + ('h, 'm) RegistrationOutput)
        \<times> ('i, 'h, 'm) AlgorithmBase ImageRegistrationEngine" where
  "register self src_img ref_img =
     (case register_loop self src_img ref_img (algorithms self) None None [] of
        Return out \<Rightarrow> (Inr out, self)
      | Exhausted best_result best_algorithm tried \<Rightarrow>
          (case best_result of
             None \<Rightarrow>
               (Inl (Exn RegistrationError
                  [Text (''No alignment produced a valid homography. Attempted: ''
                         @ join '', '' tried)]), self)
           | Some b \<Rightarrow>
               if \<not> enable_fallback (config self) then
                 (Inl (Exn RegistrationError
                    [Text ''No alignment met quality thresholds (min_score='',
                     FloatRepr (min_score (config self)),
                     Text '', min_inlier_ratio='',
                     FloatRepr (min_inlier_ratio (config self)),
                     Text ''). Best score: '',
                     Float3f (score b),
                     Text ('' from ''
                           @ (case best_algorithm of None \<Rightarrow> ''None'' | Some n \<Rightarrow> n))]),
                  self)
               else
                 (case best_algorithm of
                    None \<Rightarrow> (Inl (Exn AssertionError []), self)
                  | Some n \<Rightarrow>
                      (Inr \<lparr>algorithm = n, status = ''fallback_low_confidence'', result = b,
                            attempts = tried\<rparr>, self))))"

text \<open>
  \<^verbatim>\<open>d[k] = v\<close> on a dictionary: the value of a key that is present is replaced where
  the key stands, a new key goes to the end. \<^verbatim>\<open>del d[k]\<close> removes the entry of \<open>k\<close>.
\<close>

fun dict_setitem :: "('k \<times> 'v) list \<Rightarrow> 'k \<Rightarrow> 'v \<Rightarrow> ('k \<times> 'v) list" where
  "dict_setitem [] k v = [(k, v)]"
| "dict_setitem ((k', v') # d) k v =
     (if k' = k then (k, v) # d else (k', v') # dict_setitem d k v)"

fun dict_delitem :: "('k \<times> 'v) list \<Rightarrow> 'k \<Rightarrow> ('k \<times> 'v) list" where
  "dict_delitem [] k = []"
| "dict_delitem ((k', v') # d) k = (if k' = k then d else (k', v') # dict_delitem d k)"

definition register_algorithm ::
  "'a ImageRegistrationEngine \<Rightarrow> string \<Rightarrow> 'a \<Rightarrow> 'a ImageRegistrationEngine" where
  "register_algorithm self name algo =
     self\<lparr>algorithms := dict_setitem (algorithms self) name algo\<rparr>"

definition unregister_algorithm ::
  "'a ImageRegistrationEngine \<Rightarrow> string \<Rightarrow> exn + 'a ImageRegistrationEngine" where
  "unregister_algorithm self name =
     (if length (algorithms self) = 1 then
        Inl (Exn ConfigurationError [Text ''Cannot remove the last algorithm''])
      else if name \<in> set (map fst (algorithms self)) then
        Inr (self\<lparr>algorithms := dict_delitem (algorithms self) name\<rparr>)
      else Inr self)"

subsection \<open>engine.py: calls left by an exception outside Exception\<close>

text \<open>
  \<^verbatim>\<open>KeyboardInterrupt\<close>, \<^verbatim>\<open>SystemExit\<close> and \<^verbatim>\<open>GeneratorExit\<close> derive from
  \<^verbatim>\<open>BaseException\<close> and not from \<^verbatim>\<open>Exception\<close>. A call of \<^verbatim>\<open>align\<close> either completes
  within \<^verbatim>\<open>Exception\<close>, as \<open>align_outcome\<close> says, or one of these leaves it.
\<close>

datatype exit_signal = KeyboardInterrupt | SystemExit | GeneratorExit

datatype ('h, 'm) call_outcome =
  Completes "('h, 'm) align_outcome"
  | Escapes exit_signal

datatype ('i, 'h, 'm) RawAlgorithm =
  RawAlgorithm (raw_align: "'i \<Rightarrow> 'i \<Rightarrow> ('h, 'm) call_outcome")

text \<open>
  The \<^verbatim>\<open>for\<close> loop of \<^verbatim>\<open>register\<close> with such calls: the clause
  \<^verbatim>\<open>except Exception\<close> catches what \<open>Raises\<close> carries and nothing else, so the loop
  is left with the signal; otherwise it is the loop above.
\<close>

fun register_loop_raw ::
  "('i, 'h, 'm) RawAlgorithm ImageRegistrationEngine \<Rightarrow> 'i \<Rightarrow> 'i
     \<Rightarrow> (string \<times> ('i, 'h, 'm) RawAlgorithm) list
     \<Rightarrow> ('h, 'm) RegistrationResult option \<Rightarrow> string option \<Rightarrow> string list
     \<Rightarrow> exit_signal + ('h, 'm) loop_exit" where
  "register_loop_raw self src_img ref_img [] best_result best_algorithm tried =
     Inr (Exhausted best_result best_algorithm tried)"
| "register_loop_raw self src_img ref_img ((name, algo) # rest) best_result best_algorithm tried =
     (let tried' = tried @ [name] in
      case raw_align algo src_img ref_img of
        Escapes sig \<Rightarrow> Inl sig
      | Completes (Raises e) \<Rightarrow>
          register_loop_raw self src_img ref_img rest best_result best_algorithm tried'
      | Completes (Returns None) \<Rightarrow>
          register_loop_raw self src_img ref_img rest best_result best_algorithm tried'
      | Completes (Returns (Some r)) \<Rightarrow>
          (let better = (case best_result of None \<Rightarrow> True | Some b \<Rightarrow> score r > score b);
               best_result' = (if better then Some r else best_result);
               best_algorithm' = (if better then Some name else best_algorithm)
           in if is_acceptable self r then
                Inr (Return \<lparr>algorithm = name, status = ''accepted'', result = r,
                             attempts = tried'\<rparr>)
              else
                register_loop_raw self src_img ref_img rest best_result' best_algorithm'
                  tried'))"

text \<open>
  What \<^verbatim>\<open>register\<close> does once the loop is left without a signal: the \<^verbatim>\<open>return\<close> of the
  loop body, or the three ways out after the loop (lemma \<open>register_finish\<close> below: it is
  what \<open>register\<close> does).
\<close>

fun finish ::
  "'a ImageRegistrationEngine \<Rightarrow> ('h, 'm) loop_exit \<Rightarrow> exn + ('h, 'm) RegistrationOutput" where
  "finish self (Return out) = Inr out"
| "finish self (Exhausted best_result best_algorithm tried) =
     (case best_result of
        None \<Rightarrow>
          Inl (Exn RegistrationError
            [Text (''No alignment produced a valid homography. Attempted: ''
                   @ join '', '' tried)])
      | Some b \<Rightarrow>
          if \<not> enable_fallback (config self) then
            Inl (Exn RegistrationError
              [Text ''No alignment met quality thresholds (min_score='',
               FloatRepr (min_score (config self)),
               Text '', min_inlier_ratio='',
               FloatRepr (min_inlier_ratio (config self)),
               Text ''). Best score: '',
               Float3f (score b),
               Text ('' from ''
                     @ (case best_algorithm of None \<Rightarrow> ''None'' | Some n \<Rightarrow> n))])
          else
            (case best_algorithm of
               None \<Rightarrow> Inl (Exn AssertionError [])
             | Some n \<Rightarrow>
                 Inr \<lparr>algorithm = n, status = ''fallback_low_confidence'', result = b,
                      attempts = tried\<rparr>))"

text \<open>
  \<^verbatim>\<open>register\<close> with such calls: a signal that left the loop leaves \<^verbatim>\<open>register\<close> (\<open>Inl\<close>);
  otherwise the result is the output or the exception of \<open>finish\<close>.
\<close>

definition register_raw ::
  "('i, 'h, 'm) RawAlgorithm ImageRegistrationEngine \<Rightarrow> 'i \<Rightarrow> 'i
     \<Rightarrow> (exit_signal + exn + ('h, 'm) RegistrationOutput)
        \<times> ('i, 'h, 'm) RawAlgorithm ImageRegistrationEngine" where
  "register_raw self src_img ref_img =
     (case register_loop_raw self src_img ref_img (algorithms self) None None [] of
        Inl sig \<Rightarrow> (Inl sig, self)
      | Inr ex \<Rightarrow> (Inr (finish self ex), self))"

text \<open>An algorithm whose calls all complete within \<^verbatim>\<open>Exception\<close>, as a raw algorithm.\<close>

definition within_contract :: "('i, 'h, 'm) AlgorithmBase \<Rightarrow> ('i, 'h, 'm) RawAlgorithm" where
  "within_contract a = RawAlgorithm (\<lambda>src_img ref_img. Completes (align a src_img ref_img))"

subsection \<open>engine.py: the engine as an object in a store\<close>

text \<open>
  The objects \<^verbatim>\<open>register\<close> reads and writes, in a store: a list of objects, an address
  being an index in it, allocation adding an object at the end. The engine object
  holds the addresses of its registry and of its configuration. \<^verbatim>\<open>attempts\<close> is a list
  object, which \<^verbatim>\<open>append\<close> changes in place. The other local variables of \<^verbatim>\<open>register\<close>
  are only assigned, and stay arguments. An attribute that is missing, or is no object
  of the expected class, raises \<^verbatim>\<open>AttributeError\<close>.
\<close>

type_synonym addr = nat

datatype ('i, 'h, 'm) pyobj =
  EngineObj addr addr
  | DictObj "(string \<times> ('i, 'h, 'm) AlgorithmBase) list"
  | ConfigObj EngineConfig
  | ListObj "string list"

definition deref :: "'o list \<Rightarrow> addr \<Rightarrow> 'o option" where
  "deref h a = (if a < length h then Some (h ! a) else None)"

text \<open>The engine that the object at \<open>self\<close> stands for: its registry and configuration.\<close>

definition engine_at ::
  "('i, 'h, 'm) pyobj list \<Rightarrow> addr
     \<Rightarrow> ('i, 'h, 'm) AlgorithmBase ImageRegistrationEngine option" where
  "engine_at h self =
     (case deref h self of
        Some (EngineObj a c) \<Rightarrow>
          (case deref h a of
             Some (DictObj d) \<Rightarrow>
               (case deref h c of
                  Some (ConfigObj cfg) \<Rightarrow> Some \<lparr>algorithms = d, config = cfg\<rparr>
                | _ \<Rightarrow> None)
           | _ \<Rightarrow> None)
      | _ \<Rightarrow> None)"

text \<open>\<^verbatim>\<open>xs.append(x)\<close> on the list object at \<open>a\<close>.\<close>

definition list_append ::
  "('i, 'h, 'm) pyobj list \<Rightarrow> addr \<Rightarrow> string \<Rightarrow> ('i, 'h, 'm) pyobj list option" where
  "list_append h a x =
     (case deref h a of
        Some (ListObj xs) \<Rightarrow> Some (h[a := ListObj (xs @ [x])])
      | _ \<Rightarrow> None)"

text \<open>
  The loop over the entries that \<^verbatim>\<open>self.algorithms.items()\<close> gave, with \<^verbatim>\<open>attempts\<close> at
  the address \<open>att\<close>. \<^verbatim>\<open>_is_acceptable\<close> reads \<^verbatim>\<open>self.config\<close> in the store as it is then.
  The names tried are read from the list object when the loop is left.
\<close>

fun register_loop_heap ::
  "('i, 'h, 'm) pyobj list \<Rightarrow> addr \<Rightarrow> 'i \<Rightarrow> 'i
     \<Rightarrow> (string \<times> ('i, 'h, 'm) AlgorithmBase) list
     \<Rightarrow> ('h, 'm) RegistrationResult option \<Rightarrow> string option \<Rightarrow> addr
     \<Rightarrow> (exn + ('h, 'm) loop_exit) \<times> ('i, 'h, 'm) pyobj list" where
  "register_loop_heap h self src_img ref_img [] best_result best_algorithm att =
     (case deref h att of
        Some (ListObj tried) \<Rightarrow> (Inr (Exhausted best_result best_algorithm tried), h)
      | _ \<Rightarrow> (Inl (Exn AttributeError []), h))"
| "register_loop_heap h self src_img ref_img ((name, algo) # rest) best_result best_algorithm att =
     (case list_append h att name of
        None \<Rightarrow> (Inl (Exn AttributeError []), h)
      | Some h' \<Rightarrow>
          (case align algo src_img ref_img of
             Raises e \<Rightarrow>
               register_loop_heap h' self src_img ref_img rest best_result best_algorithm att
           | Returns None \<Rightarrow>
               register_loop_heap h' self src_img ref_img rest best_result best_algorithm att
           | Returns (Some r) \<Rightarrow>
               (let better = (case best_result of None \<Rightarrow> True | Some b \<Rightarrow> score r > score b);
                    best_result' = (if better then Some r else best_result);
                    best_algorithm' = (if better then Some name else best_algorithm)
                in case engine_at h' self of
                     None \<Rightarrow> (Inl (Exn AttributeError []), h')
                   | Some e \<Rightarrow>
                       if is_acceptable e r then
                         (case deref h' att of
                            Some (ListObj tried) \<Rightarrow>
                              (Inr (Return \<lparr>algorithm = name, status = ''accepted'',
                                           result = r, attempts = tried\<rparr>), h')
                          | _ \<Rightarrow> (Inl (Exn AttributeError []), h'))
                       else
                         register_loop_heap h' self src_img ref_img rest best_result'
                           best_algorithm' att)))"

text \<open>
  \<^verbatim>\<open>register\<close> on the engine object at \<open>self\<close>: \<^verbatim>\<open>attempts = []\<close> allocates a new list
  object, \<^verbatim>\<open>self.algorithms\<close> is read for the loop, and \<^verbatim>\<open>self.config\<close> is read again
  after it. The second component is the store after the call.
\<close>

definition register_heap ::
  "('i, 'h, 'm) pyobj list \<Rightarrow> addr \<Rightarrow> 'i \<Rightarrow> 'i
     \<Rightarrow> (exn + ('h, 'm) RegistrationOutput) \<times> ('i, 'h, 'm) pyobj list" where
  "register_heap h self src_img ref_img =
     (let att = length h; h0 = h @ [ListObj []]
      in case engine_at h0 self of
           None \<Rightarrow> (Inl (Exn AttributeError []), h0)
         | Some e \<Rightarrow>
             (case register_loop_heap h0 self src_img ref_img (algorithms e) None None att of
                (Inl x, h1) \<Rightarrow> (Inl x, h1)
              | (Inr ex, h1) \<Rightarrow>
                  (case engine_at h1 self of
                     None \<Rightarrow> (Inl (Exn AttributeError []), h1)
                   | Some e1 \<Rightarrow> (finish e1 ex, h1))))"

subsection \<open>Vocabulary of the properties\<close>

text \<open>
  \<open>no_acceptable self src ref items\<close>: no entry of \<open>items\<close> returns a result that passes
  the thresholds. \<open>all_scores_less\<close> and \<open>all_scores_le\<close> bound the score of every result
  the entries of \<open>items\<close> return. \<open>first_best src ref items A n a B r\<close>: the entry
  \<open>(n, a)\<close> of \<open>items\<close> returns \<open>r\<close>, every result before it scores strictly less and
  every result after it scores at most as much, so \<open>r\<close> is the earliest result of
  maximal score.
\<close>

abbreviation no_acceptable ::
  "'a ImageRegistrationEngine \<Rightarrow> 'i \<Rightarrow> 'i
     \<Rightarrow> (string \<times> ('i, 'h, 'm) AlgorithmBase) list \<Rightarrow> bool" where
  "no_acceptable self src_img ref_img items \<equiv>
     \<forall>(n, a)\<in>set items. \<forall>r. align a src_img ref_img = Returns (Some r)
        \<longrightarrow> \<not> is_acceptable self r"

abbreviation all_scores_less ::
  "'i \<Rightarrow> 'i \<Rightarrow> (string \<times> ('i, 'h, 'm) AlgorithmBase) list \<Rightarrow> real \<Rightarrow> bool" where
  "all_scores_less src_img ref_img items x \<equiv>
     \<forall>(n, a)\<in>set items. \<forall>r. align a src_img ref_img = Returns (Some r) \<longrightarrow> score r < x"

abbreviation all_scores_le ::
  "'i \<Rightarrow> 'i \<Rightarrow> (string \<times> ('i, 'h, 'm) AlgorithmBase) list \<Rightarrow> real \<Rightarrow> bool" where
  "all_scores_le src_img ref_img items x \<equiv>
     \<forall>(n, a)\<in>set items. \<forall>r. align a src_img ref_img = Returns (Some r) \<longrightarrow> score r \<le> x"

abbreviation first_best ::
  "'i \<Rightarrow> 'i \<Rightarrow> (string \<times> ('i, 'h, 'm) AlgorithmBase) list
     \<Rightarrow> (string \<times> ('i, 'h, 'm) AlgorithmBase) list \<Rightarrow> string \<Rightarrow> ('i, 'h, 'm) AlgorithmBase
     \<Rightarrow> (string \<times> ('i, 'h, 'm) AlgorithmBase) list \<Rightarrow> ('h, 'm) RegistrationResult \<Rightarrow> bool" where
  "first_best src_img ref_img items A n a B r \<equiv>
     items = A @ (n, a) # B \<and> align a src_img ref_img = Returns (Some r)
     \<and> all_scores_less src_img ref_img A (score r)
     \<and> all_scores_le src_img ref_img B (score r)"

text \<open>The names tried when the loop was left.\<close>

fun exit_attempts :: "('h, 'm) loop_exit \<Rightarrow> string list" where
  "exit_attempts (Return out) = attempts out"
| "exit_attempts (Exhausted best_result best_algorithm tried) = tried"

subsection \<open>The fixtures of the test suite\<close>

text \<open>
  The mock algorithms and results of the test suite, used as the concrete inputs of the
  instances below. The tests pass \<^verbatim>\<open>None\<close> for both images.
\<close>

definition MockAlgorithm ::
  "(int list list, unit) RegistrationResult option \<Rightarrow> (unit, int list list, unit) AlgorithmBase" where
  "MockAlgorithm r = Algorithm (\<lambda>src_img ref_img. Returns r)"

definition FailingAlgorithm :: "(unit, int list list, unit) AlgorithmBase" where
  "FailingAlgorithm =
     Algorithm (\<lambda>src_img ref_img. Raises (Exn RuntimeError [Text ''Simulated algorithm failure'']))"

definition identity_matrix :: "int list list" where
  "identity_matrix = [[1, 0, 0], [0, 1, 0], [0, 0, 1]]"

definition good_result :: "(int list list, unit) RegistrationResult" where
  "good_result = \<lparr>score = 0.92, inlier_ratio = 0.75, homography = identity_matrix,
                   matches_count = 150, metadata = None\<rparr>"

definition mediocre_result :: "(int list list, unit) RegistrationResult" where
  "mediocre_result = \<lparr>score = 0.70, inlier_ratio = 0.45, homography = identity_matrix,
                       matches_count = 80, metadata = None\<rparr>"

definition poor_result :: "(int list list, unit) RegistrationResult" where
  "poor_result = \<lparr>score = 0.40, inlier_ratio = 0.20, homography = identity_matrix,
                   matches_count = 30, metadata = None\<rparr>"

definition threshold_result :: "(int list list, unit) RegistrationResult" where
  "threshold_result = \<lparr>score = 0.85, inlier_ratio = 0.6, homography = identity_matrix,
                        matches_count = 100, metadata = None\<rparr>"

text \<open>
  Three algorithms none of which passes the default thresholds; the last two return
  results of the same score.
\<close>

definition fallback_engine ::
  "bool \<Rightarrow> (unit, int list list, unit) AlgorithmBase ImageRegistrationEngine" where
  "fallback_engine fb =
     \<lparr>algorithms = [(''ORB'', MockAlgorithm (Some poor_result)),
                    (''SIFT'', MockAlgorithm (Some mediocre_result)),
                    (''AKAZE'', MockAlgorithm (Some (mediocre_result\<lparr>inlier_ratio := 0.5\<rparr>)))],
      config = EngineConfig_default\<lparr>enable_fallback := fb\<rparr>\<rparr>"




text \<open>
  A store holding a configuration, a registry and, at address 2, the engine object of
  \<open>fallback_engine fb\<close>.
\<close>

definition fallback_store :: "bool \<Rightarrow> (unit, int list list, unit) pyobj list" where
  "fallback_store fb =
     [ConfigObj (config (fallback_engine fb)),
      DictObj (algorithms (fallback_engine fb)),
      EngineObj 1 0]"

section \<open>Properties\<close>

subsection \<open>The text of a message\<close>

lemma render_Cons: "render num (p # m) = piece num p @ render num m"
  by (simp add: render_def)

lemma skeleton_Cons: "skeleton (p # m) = mark p @ skeleton m"
  by (simp add: skeleton_def)

lemma numeric_piece:
  assumes "numeric_rendering num" and "\<forall>t. p \<noteq> Text t"
  shows "piece num p \<noteq> [] \<and> set (piece num p) \<subseteq> set numeric_chars \<and> mark p = [None]"
  using assms by (cases p) (auto simp: numeric_rendering_def)

lemma prefix_render_skeleton:
  assumes "numeric_rendering num"
  shows "set s \<inter> set numeric_chars = {} \<Longrightarrow> prefix s (render num m)
         \<Longrightarrow> prefix (map Some s) (skeleton m)"
proof (induction m arbitrary: s)
  case Nil
  then show ?case by (simp add: render_def)
next
  case (Cons p m)
  show ?case
  proof (cases "\<exists>t. p = Text t")
    case True
    then obtain t where p: "p = Text t" by blast
    from Cons.prems(2) have "prefix s (t @ render num m)"
      by (simp add: render_Cons p)
    then consider "prefix s t" | us where "s = t @ us" "prefix us (render num m)"
      by (auto simp: prefix_append)
    then show ?thesis
    proof cases
      case 1
      then have "prefix (map Some s) (map Some t)" by (rule map_mono_prefix)
      then show ?thesis by (simp add: skeleton_Cons p prefix_prefix)
    next
      case 2
      then have "set us \<inter> set numeric_chars = {}" using Cons.prems(1) by auto
      then have "prefix (map Some us) (skeleton m)" using Cons.IH 2(2) by blast
      then show ?thesis using 2(1) by (simp add: skeleton_Cons p)
    qed
  next
    case False
    then have n: "piece num p \<noteq> []" "set (piece num p) \<subseteq> set numeric_chars" "mark p = [None]"
      using numeric_piece [OF assms, of p] by auto
    have "s = []"
    proof (rule ccontr)
      assume "s \<noteq> []"
      then obtain c s' where s: "s = c # s'" by (cases s) auto
      obtain c' n' where pn: "piece num p = c' # n'" using n(1) by (cases "piece num p") auto
      from Cons.prems(2) have "c = c'" by (simp add: render_Cons s pn)
      then have "c \<in> set numeric_chars" using n(2) pn by auto
      then show False using Cons.prems(1) s by auto
    qed
    then show ?thesis by simp
  qed
qed

lemma render_mentions:
  assumes "numeric_rendering num"
  shows "s \<noteq> [] \<Longrightarrow> set s \<inter> set numeric_chars = {} \<Longrightarrow> sublist s (render num m)
         \<Longrightarrow> mentions m s"
proof (induction m)
  case Nil
  then show ?case by (simp add: render_def)
next
  case (Cons p m)
  from Cons.prems(3) have "sublist s (piece num p @ render num m)"
    by (simp add: render_Cons)
  then consider (left) "sublist s (piece num p)"
    | (right) "sublist s (render num m)"
    | (span) s1 s2 where "s = s1 @ s2" "suffix s1 (piece num p)" "prefix s2 (render num m)"
    by (auto simp: sublist_append)
  then show ?case
  proof cases
    case right
    then have "sublist (map Some s) (skeleton m)"
      using Cons.IH Cons.prems(1,2) by (simp add: mentions_def)
    then show ?thesis by (simp add: mentions_def skeleton_Cons sublist_append)
  next
    case left
    show ?thesis
    proof (cases "\<exists>t. p = Text t")
      case True
      then obtain t where p: "p = Text t" by blast
      then have "sublist (map Some s) (map Some t)" using left by (simp add: map_mono_sublist)
      then show ?thesis by (simp add: mentions_def skeleton_Cons p sublist_append)
    next
      case False
      then have "set (piece num p) \<subseteq> set numeric_chars"
        using numeric_piece [OF assms, of p] by auto
      moreover have "set s \<subseteq> set (piece num p)" using left by (rule set_mono_sublist)
      ultimately have "set s \<subseteq> {}" using Cons.prems(2) by blast
      then show ?thesis using Cons.prems(1) by simp
    qed
  next
    case span
    have s2: "set s2 \<inter> set numeric_chars = {}" using span(1) Cons.prems(2) by auto
    have pre2: "prefix (map Some s2) (skeleton m)"
      using prefix_render_skeleton [OF assms s2 span(3)] .
    show ?thesis
    proof (cases "\<exists>t. p = Text t")
      case True
      then obtain t where p: "p = Text t" by blast
      have "suffix (map Some s1) (map Some t)"
        using span(2) p by (simp add: map_mono_suffix)
      then have "\<exists>xs1 xs2. map Some s = xs1 @ xs2 \<and> suffix xs1 (map Some t)
                   \<and> prefix xs2 (skeleton m)"
        using pre2 span(1) by (metis map_append)
      then show ?thesis by (simp add: mentions_def skeleton_Cons p sublist_append)
    next
      case False
      then have "set (piece num p) \<subseteq> set numeric_chars"
        using numeric_piece [OF assms, of p] by auto
      moreover have "set s1 \<subseteq> set (piece num p)"
        using span(2) by (rule set_mono_suffix)
      moreover have "set s1 \<inter> set numeric_chars = {}" using span(1) Cons.prems(2) by auto
      ultimately have "set s1 \<subseteq> {}" by blast
      then have "s1 = []" by simp
      then have "sublist s (render num m)" using span(1,3) by auto
      then have "sublist (map Some s) (skeleton m)"
        using Cons.IH Cons.prems(1,2) by (simp add: mentions_def)
      then show ?thesis by (simp add: mentions_def skeleton_Cons sublist_append)
    qed
  qed
qed

lemma prefix_skeleton_render:
  "prefix (map Some s) (skeleton m) \<Longrightarrow> prefix s (render num m)"
proof (induction m arbitrary: s)
  case Nil
  then show ?case by (simp add: skeleton_def)
next
  case (Cons p m)
  show ?case
  proof (cases "\<exists>t. p = Text t")
    case True
    then obtain t where p: "p = Text t" by blast
    from Cons.prems have "prefix (map Some s) (map Some t @ skeleton m)"
      by (simp add: skeleton_Cons p)
    then consider "prefix (map Some s) (map Some t)"
      | us where "map Some s = map Some t @ us" "prefix us (skeleton m)"
      by (auto simp: prefix_append)
    then show ?thesis
    proof cases
      case 1
      then obtain zs where "map Some t = map Some s @ zs" by (auto simp: prefix_def)
      then obtain t1 t2 where "t = t1 @ t2" "map Some t1 = map Some s"
        by (auto simp: map_eq_append_conv)
      then have "t = s @ t2" by (simp add: map_eq_conv [symmetric] inj_map_eq_map)
      then show ?thesis by (simp add: render_Cons p)
    next
      case 2
      then obtain s1 s2 where s: "s = s1 @ s2" "map Some s1 = map Some t" "map Some s2 = us"
        by (auto simp: map_eq_append_conv)
      then have "s1 = t" by (simp add: inj_map_eq_map)
      moreover have "prefix s2 (render num m)" using Cons.IH 2(2) s(3) by blast
      ultimately show ?thesis using s(1) by (simp add: render_Cons p)
    qed
  next
    case False
    then have "mark p = [None]" by (cases p) auto
    then have "prefix (map Some s) (None # skeleton m)"
      using Cons.prems by (simp add: skeleton_Cons)
    then have "s = []" by (cases s) auto
    then show ?thesis by simp
  qed
qed

lemma mentions_render:
  "mentions m s \<Longrightarrow> sublist s (render num m)"
  unfolding mentions_def
proof (induction m)
  case Nil
  then show ?case by (simp add: skeleton_def)
next
  case (Cons p m)
  from Cons.prems have "sublist (map Some s) (mark p @ skeleton m)"
    by (simp add: skeleton_Cons)
  then consider (left) "sublist (map Some s) (mark p)"
    | (right) "sublist (map Some s) (skeleton m)"
    | (span) x1 x2 where "map Some s = x1 @ x2" "suffix x1 (mark p)" "prefix x2 (skeleton m)"
    by (auto simp: sublist_append)
  then show ?case
  proof cases
    case right
    then show ?thesis using Cons.IH by (simp add: render_Cons sublist_append)
  next
    case left
    show ?thesis
    proof (cases "\<exists>t. p = Text t")
      case True
      then obtain t where p: "p = Text t" by blast
      from left p have "sublist (map Some s) (map Some t)" by simp
      then obtain s' where "map Some s = map Some s'" "sublist s' t"
        using sublist_map_rightE [of "map Some s" Some t] by blast
      then have "sublist s t" by (simp add: inj_map_eq_map)
      then show ?thesis by (simp add: render_Cons p sublist_append)
    next
      case False
      then have "mark p = [None]" by (cases p) auto
      then have "sublist (map Some s) [None]" using left by simp
      then have "s = []" by (cases s) (auto simp: sublist_Cons_right prefix_Cons)
      then show ?thesis by simp
    qed
  next
    case span
    from span(1) obtain s1 s2 where s: "s = s1 @ s2" "map Some s1 = x1" "map Some s2 = x2"
      by (auto simp: map_eq_append_conv)
    have pre2: "prefix s2 (render num m)"
      using prefix_skeleton_render span(3) s(3) by blast
    show ?thesis
    proof (cases "\<exists>t. p = Text t")
      case True
      then obtain t where p: "p = Text t" by blast
      from span(2) s(2) p obtain zs where "map Some t = zs @ map Some s1"
        by (auto simp: suffix_def)
      then obtain t1 t2 where "t = t1 @ t2" "map Some t2 = map Some s1"
        by (auto simp: map_eq_append_conv)
      then have "suffix s1 t" by (simp add: inj_map_eq_map suffix_def)
      then have "\<exists>xs1 xs2. s = xs1 @ xs2 \<and> suffix xs1 t \<and> prefix xs2 (render num m)"
        using pre2 s(1) by blast
      then show ?thesis by (simp add: render_Cons p sublist_append)
    next
      case False
      then have "mark p = [None]" by (cases p) auto
      then have "suffix (map Some s1) [None]" using span(2) s(2) by simp
      then have "s1 = []" by (cases s1) (auto simp: suffix_Cons)
      then have "sublist s (render num m)" using pre2 s(1) by auto
      then show ?thesis by (simp add: render_Cons sublist_append)
    qed
  qed
qed

lemma mentions_last_text: "mentions (m @ [Text (t @ s)]) s"
proof -
  have "skeleton (m @ [Text (t @ s)]) = (skeleton m @ map Some t) @ map Some s @ []"
    by (simp add: skeleton_def)
  then show ?thesis unfolding mentions_def sublist_def by blast
qed

subsection \<open>Early exit on the first acceptable result\<close>

lemma register_loop_reject:
  "align algo s rf = Returns (Some r) \<Longrightarrow> \<not> is_acceptable self r \<Longrightarrow>
   register_loop self s rf ((name, algo) # rest) b bn t =
   register_loop self s rf rest
     (if (case b of None \<Rightarrow> True | Some br \<Rightarrow> score br < score r) then Some r else b)
     (if (case b of None \<Rightarrow> True | Some br \<Rightarrow> score br < score r) then Some name else bn)
     (t @ [name])"
  by (simp add: Let_def)

lemma register_loop_accept:
  "align algo s rf = Returns (Some r) \<Longrightarrow> is_acceptable self r \<Longrightarrow>
   register_loop self s rf ((name, algo) # rest) b bn t =
   Return \<lparr>algorithm = name, status = ''accepted'', result = r, attempts = t @ [name]\<rparr>"
  by (simp add: Let_def)

lemma register_loop_skip_prefix:
  "no_acceptable self s rf pre \<Longrightarrow>
   \<exists>b' bn'. register_loop self s rf (pre @ rest) b bn t =
            register_loop self s rf rest b' bn' (t @ map fst pre)"
proof (induction pre arbitrary: b bn t)
  case Nil
  then show ?case by auto
next
  case (Cons p pre)
  obtain n a where p: "p = (n, a)" by (cases p)
  have rest_ok: "no_acceptable self s rf pre"
    using Cons.prems by simp
  show ?case
  proof (cases "align a s rf")
    case (Raises x)
    from Cons.IH [OF rest_ok, of b bn "t @ [n]"] Raises p show ?thesis by simp
  next
    case (Returns ro)
    show ?thesis
    proof (cases ro)
      case None
      from Cons.IH [OF rest_ok, of b bn "t @ [n]"] Returns None p show ?thesis by simp
    next
      case (Some r)
      have nacc: "\<not> is_acceptable self r" using Cons.prems p Returns Some by auto
      let ?b = "if (case b of None \<Rightarrow> True | Some br \<Rightarrow> score br < score r) then Some r else b"
      let ?bn = "if (case b of None \<Rightarrow> True | Some br \<Rightarrow> score br < score r) then Some n else bn"
      from Cons.IH [OF rest_ok, of ?b ?bn "t @ [n]"]
      obtain b' bn' where
        "register_loop self s rf (pre @ rest) ?b ?bn (t @ [n]) =
         register_loop self s rf rest b' bn' ((t @ [n]) @ map fst pre)" by blast
      then show ?thesis
        using register_loop_reject [of a s rf r self n "pre @ rest" b bn t] Returns Some nacc p
        by auto
    qed
  qed
qed

text \<open>
  Claim C2. The algorithms are tried in the order of the registry. When the entries
  before \<open>(name, algo)\<close> return no result that passes the thresholds and \<open>algo\<close> returns
  a result \<open>r\<close> with \<open>score r \<ge> min_score\<close> and \<open>inlier_ratio r \<ge> min_inlier_ratio\<close>
  (both inclusive), \<^verbatim>\<open>register\<close> returns at once: status \<^verbatim>\<open>accepted\<close>, the name and the
  result of that algorithm, and as attempts the names tried so far. The output is the
  same whatever entries \<open>post\<close> come later: none of them is called, and none is among
  the attempts.
\<close>

theorem register_accepts_first_acceptable:
  assumes "no_acceptable \<lparr>algorithms = pre @ (name, algo) # post, config = cfg\<rparr> src_img ref_img pre"
    and "align algo src_img ref_img = Returns (Some r)"
    and "score r \<ge> min_score cfg"
    and "inlier_ratio r \<ge> min_inlier_ratio cfg"
  shows "fst (register \<lparr>algorithms = pre @ (name, algo) # post, config = cfg\<rparr> src_img ref_img) =
         Inr \<lparr>algorithm = name, status = ''accepted'', result = r,
              attempts = map fst pre @ [name]\<rparr>"
proof -
  let ?e = "\<lparr>algorithms = pre @ (name, algo) # post, config = cfg\<rparr>"
  have acc: "is_acceptable ?e r"
    using assms(3,4) by (simp add: is_acceptable_def)
  from register_loop_skip_prefix [OF assms(1), of "(name, algo) # post" None None "[]"]
  obtain b' bn' where
    "register_loop ?e src_img ref_img (pre @ (name, algo) # post) None None [] =
     register_loop ?e src_img ref_img ((name, algo) # post) b' bn' ([] @ map fst pre)"
    by blast
  then have "register_loop ?e src_img ref_img (algorithms ?e) None None [] =
     Return \<lparr>algorithm = name, status = ''accepted'', result = r,
             attempts = map fst pre @ [name]\<rparr>"
    using register_loop_accept [OF assms(2) acc] by simp
  then show ?thesis by (simp add: register_def)
qed

theorem register_accepts_first_acceptable_witness:
  "\<not> is_acceptable \<lparr>algorithms = [(''ORB'', MockAlgorithm (Some mediocre_result))]
        @ (''SIFT'', MockAlgorithm (Some threshold_result))
        # [(''AKAZE'', MockAlgorithm (Some good_result))], config = EngineConfig_default\<rparr>
       mediocre_result
   \<and> align (MockAlgorithm (Some threshold_result)) () () = Returns (Some threshold_result)
   \<and> score threshold_result = min_score EngineConfig_default
   \<and> inlier_ratio threshold_result = min_inlier_ratio EngineConfig_default
   \<and> fst (register \<lparr>algorithms = [(''ORB'', MockAlgorithm (Some mediocre_result))]
        @ (''SIFT'', MockAlgorithm (Some threshold_result))
        # [(''AKAZE'', MockAlgorithm (Some good_result))], config = EngineConfig_default\<rparr> () ()) =
      Inr \<lparr>algorithm = ''SIFT'', status = ''accepted'', result = threshold_result,
           attempts = [''ORB'', ''SIFT'']\<rparr>"
proof -
  let ?pre = "[(''ORB'', MockAlgorithm (Some mediocre_result))]"
  let ?post = "[(''AKAZE'', MockAlgorithm (Some good_result))]"
  let ?e = "\<lparr>algorithms = ?pre @ (''SIFT'', MockAlgorithm (Some threshold_result)) # ?post,
             config = EngineConfig_default\<rparr>"
  have h0: "\<not> is_acceptable ?e mediocre_result"
    by (simp add: mediocre_result_def is_acceptable_def EngineConfig_default_def)
  have h1: "no_acceptable ?e () () ?pre"
    using h0 by (simp add: MockAlgorithm_def)
  have h2: "align (MockAlgorithm (Some threshold_result)) () () = Returns (Some threshold_result)"
    by (simp add: MockAlgorithm_def)
  have h3: "score threshold_result = min_score EngineConfig_default"
    by (simp add: threshold_result_def EngineConfig_default_def)
  have h4: "inlier_ratio threshold_result = min_inlier_ratio EngineConfig_default"
    by (simp add: threshold_result_def EngineConfig_default_def)
  have h3': "score threshold_result \<ge> min_score EngineConfig_default" using h3 by simp
  have h4': "inlier_ratio threshold_result \<ge> min_inlier_ratio EngineConfig_default" using h4 by simp
  from register_accepts_first_acceptable [OF h1 h2 h3' h4']
  show ?thesis using h0 h2 h3 h4 by simp
qed

subsection \<open>Construction of a result\<close>

text \<open>
  Claim C8. Constructing a \<^verbatim>\<open>RegistrationResult\<close> with a score outside \<open>[0, 1]\<close>, an
  inlier ratio outside \<open>[0, 1]\<close> or a negative match count fails (with a
  \<^verbatim>\<open>ValueError\<close>); from values in range the constructor returns the result holding
  exactly those values.
\<close>

theorem RegistrationResult_init_validates:
  "((s < 0 \<or> 1 < s \<or> ir < 0 \<or> 1 < ir \<or> mc < 0)
      \<longrightarrow> (\<exists>m. RegistrationResult_init s ir h mc md = Inl (Exn ValueError m)))
   \<and> (0 \<le> s \<and> s \<le> 1 \<and> 0 \<le> ir \<and> ir \<le> 1 \<and> 0 \<le> mc
      \<longrightarrow> RegistrationResult_init s ir h mc md =
           Inr \<lparr>score = s, inlier_ratio = ir, homography = h, matches_count = mc,
                metadata = md\<rparr>)"
  by (auto simp: RegistrationResult_init_def)

theorem RegistrationResult_init_validates_witness:
  "(\<exists>m. RegistrationResult_init 1.5 0.5 identity_matrix 100 (None :: unit option) = Inl (Exn ValueError m))
   \<and> (\<exists>m. RegistrationResult_init 0.8 0.5 identity_matrix (-10) (None :: unit option) = Inl (Exn ValueError m))
   \<and> RegistrationResult_init 0.92 0.75 identity_matrix 150 (None :: unit option) = Inr good_result"
  using RegistrationResult_init_validates [of "1.5" "0.5" 100 identity_matrix "None :: unit option"]
    RegistrationResult_init_validates [of "0.8" "0.5" "-10" identity_matrix "None :: unit option"]
    RegistrationResult_init_validates [of "0.92" "0.75" 150 identity_matrix "None :: unit option"]
  by (simp add: good_result_def)

subsection \<open>The loop when nothing is accepted\<close>

lemma register_loop_exhausted:
  assumes "no_acceptable self s rf items"
  shows "\<exists>b' bn'. register_loop self s rf items b bn t = Exhausted b' bn' (t @ map fst items) \<and>
     ((b' = b \<and> bn' = bn \<and>
       (\<forall>(n, a)\<in>set items. \<forall>r. align a s rf = Returns (Some r) \<longrightarrow>
          (\<exists>br. b = Some br \<and> score r \<le> score br)))
      \<or> (\<exists>A n a B r. first_best s rf items A n a B r \<and> b' = Some r \<and> bn' = Some n \<and>
            (\<forall>br. b = Some br \<longrightarrow> score br < score r)))"
    (is "\<exists>b' bn'. ?P items b bn t b' bn'")
  using assms
proof (induction items arbitrary: b bn t)
  case Nil
  then show ?case by simp
next
  case (Cons p items)
  obtain n0 a0 where p: "p = (n0, a0)" by (cases p)
  have rest_ok: "no_acceptable self s rf items"
    using Cons.prems by simp
  text \<open>How a result of the tail extends to the whole list, when the head leaves the best unchanged.\<close>
  have keep: "\<exists>b' bn'. ?P (p # items) b bn t b' bn'"
    if eq: "register_loop self s rf (p # items) b bn t =
            register_loop self s rf items b bn (t @ [n0])"
      and head: "\<forall>r. align a0 s rf = Returns (Some r) \<longrightarrow> (\<exists>br. b = Some br \<and> score r \<le> score br)"
  proof -
    from Cons.IH [OF rest_ok, of b bn "t @ [n0]"]
    obtain b' bn' where tl: "?P items b bn (t @ [n0]) b' bn'" by blast
    then have e1: "register_loop self s rf (p # items) b bn t =
                   Exhausted b' bn' (t @ map fst (p # items))"
      using eq p by simp
    from tl consider
      (same) "b' = b" "bn' = bn"
        "\<forall>(n, a)\<in>set items. \<forall>r. align a s rf = Returns (Some r) \<longrightarrow>
           (\<exists>br. b = Some br \<and> score r \<le> score br)"
      | (later) A n a B r where "first_best s rf items A n a B r" "b' = Some r" "bn' = Some n"
        "\<forall>br. b = Some br \<longrightarrow> score br < score r"
      by blast
    then show ?thesis
    proof cases
      case same
      then have "\<forall>(n, a)\<in>set (p # items). \<forall>r. align a s rf = Returns (Some r) \<longrightarrow>
           (\<exists>br. b = Some br \<and> score r \<le> score br)"
        using head p by simp
      then show ?thesis using e1 same(1,2) by blast
    next
      case later
      have "all_scores_less s rf (p # A) (score r)"
        using later(1,4) head p by fastforce
      moreover have "p # items = (p # A) @ (n, a) # B" using later(1) by simp
      ultimately have "first_best s rf (p # items) (p # A) n a B r"
        using later(1) by blast
      then show ?thesis using e1 later(2-4) by blast
    qed
  qed
  show ?case
  proof (cases "align a0 s rf")
    case (Raises x)
    then have "register_loop self s rf (p # items) b bn t =
               register_loop self s rf items b bn (t @ [n0])"
      using p by simp
    moreover have "\<forall>r. align a0 s rf = Returns (Some r) \<longrightarrow>
                     (\<exists>br. b = Some br \<and> score r \<le> score br)"
      using Raises by simp
    ultimately show ?thesis by (rule keep)
  next
    case (Returns ro)
    show ?thesis
    proof (cases ro)
      case None
      then have "register_loop self s rf (p # items) b bn t =
                 register_loop self s rf items b bn (t @ [n0])"
        using p Returns by simp
      moreover have "\<forall>r. align a0 s rf = Returns (Some r) \<longrightarrow>
                       (\<exists>br. b = Some br \<and> score r \<le> score br)"
        using None Returns by simp
      ultimately show ?thesis by (rule keep)
    next
      case (Some r0)
      have al: "align a0 s rf = Returns (Some r0)" using Returns Some by simp
      have nacc: "\<not> is_acceptable self r0" using Cons.prems p al by auto
      show ?thesis
      proof (cases "case b of None \<Rightarrow> True | Some br \<Rightarrow> score br < score r0")
        case False
        then have "\<exists>br. b = Some br \<and> score r0 \<le> score br"
          by (cases b) auto
        then have "\<forall>r. align a0 s rf = Returns (Some r) \<longrightarrow>
                     (\<exists>br. b = Some br \<and> score r \<le> score br)"
          using al by simp
        moreover have "register_loop self s rf (p # items) b bn t =
                  register_loop self s rf items b bn (t @ [n0])"
          using register_loop_reject [OF al nacc, of n0 items b bn t] False p by simp
        ultimately show ?thesis by (intro keep)
      next
        case True
        have eq: "register_loop self s rf (p # items) b bn t =
                  register_loop self s rf items (Some r0) (Some n0) (t @ [n0])"
          using register_loop_reject [OF al nacc, of n0 items b bn t] True p by simp
        have bless: "\<forall>br. b = Some br \<longrightarrow> score br < score r0"
          using True by (auto split: option.splits)
        from Cons.IH [OF rest_ok, of "Some r0" "Some n0" "t @ [n0]"]
        obtain b' bn' where tl: "?P items (Some r0) (Some n0) (t @ [n0]) b' bn'" by blast
        then have e1: "register_loop self s rf (p # items) b bn t =
                       Exhausted b' bn' (t @ map fst (p # items))"
          using eq p by simp
        from tl consider
          (head) "b' = Some r0" "bn' = Some n0" "all_scores_le s rf items (score r0)"
          | (later) A n a B r where "first_best s rf items A n a B r" "b' = Some r" "bn' = Some n"
            "score r0 < score r"
          by auto
        then show ?thesis
        proof cases
          case head
          have "first_best s rf (p # items) [] n0 a0 items r0"
            using p al head(3) by simp
          then show ?thesis using e1 head(1,2) bless by blast
        next
          case later
          have "all_scores_less s rf (p # A) (score r)"
            using later(1,4) al p by simp
          moreover have "p # items = (p # A) @ (n, a) # B" using later(1) by simp
          ultimately have "first_best s rf (p # items) (p # A) n a B r"
            using later(1) by blast
          moreover have "\<forall>br. b = Some br \<longrightarrow> score br < score r"
            using bless later(4) by fastforce
          ultimately show ?thesis using e1 later(2,3) by blast
        qed
      qed
    qed
  qed
qed

lemma register_loop_first_best:
  assumes "no_acceptable self s rf items"
    and "\<exists>(n, a)\<in>set items. \<exists>r. align a s rf = Returns (Some r)"
  shows "\<exists>A n a B r. first_best s rf items A n a B r \<and>
           register_loop self s rf items None None [] = Exhausted (Some r) (Some n) (map fst items)"
proof -
  from register_loop_exhausted [OF assms(1), of None None "[]"]
  obtain b' bn' where
    ex: "register_loop self s rf items None None [] = Exhausted b' bn' ([] @ map fst items)"
    and alt: "(b' = None \<and> bn' = None \<and>
       (\<forall>(n, a)\<in>set items. \<forall>r. align a s rf = Returns (Some r) \<longrightarrow>
          (\<exists>br. (None :: ('b, 'c) RegistrationResult option) = Some br \<and> score r \<le> score br)))
      \<or> (\<exists>A n a B r. first_best s rf items A n a B r \<and> b' = Some r \<and> bn' = Some n \<and>
            (\<forall>br. (None :: ('b, 'c) RegistrationResult option) = Some br \<longrightarrow> score br < score r))"
    by blast
  from assms(2) obtain n a r where "(n, a) \<in> set items" "align a s rf = Returns (Some r)"
    by auto
  then have "\<not> (\<forall>(n, a)\<in>set items. \<forall>r. align a s rf = Returns (Some r) \<longrightarrow>
          (\<exists>br. (None :: ('b, 'c) RegistrationResult option) = Some br \<and> score r \<le> score br))"
    by auto
  with alt obtain A n a B r where "first_best s rf items A n a B r" "b' = Some r" "bn' = Some n"
    by blast
  then show ?thesis using ex by auto
qed

subsection \<open>The fallback result\<close>

lemma fallback_engine_no_acceptable:
  "no_acceptable (fallback_engine fb) () () (algorithms (fallback_engine fb))"
  by (simp add: fallback_engine_def MockAlgorithm_def is_acceptable_def
      EngineConfig_default_def poor_result_def mediocre_result_def)

lemma fallback_engine_some_result:
  "\<exists>(n, a)\<in>set (algorithms (fallback_engine fb)). \<exists>r. align a () () = Returns (Some r)"
  by (simp add: fallback_engine_def MockAlgorithm_def)

text \<open>
  Claim C1. When no attempted algorithm returns a result that passes the thresholds, at
  least one returns a result, and \<^verbatim>\<open>enable_fallback\<close> is true, \<^verbatim>\<open>register\<close> returns an
  output with status \<^verbatim>\<open>fallback_low_confidence\<close> whose result \<open>r\<close> was returned by the
  entry \<open>(n, a)\<close> of the registry named in its \<^verbatim>\<open>algorithm\<close> field, whose attempts are the
  names of all entries in registry order, and where \<open>r\<close> has the maximal score: every
  result of an earlier entry scores strictly less (on equal scores the earliest wins)
  and every result of a later entry scores at most as much.
\<close>

theorem register_fallback_returns_first_best:
  assumes "no_acceptable e src_img ref_img (algorithms e)"
    and "\<exists>(n, a)\<in>set (algorithms e). \<exists>r. align a src_img ref_img = Returns (Some r)"
    and "enable_fallback (config e)"
  shows "\<exists>A n a B r. first_best src_img ref_img (algorithms e) A n a B r \<and>
           fst (register e src_img ref_img) =
           Inr \<lparr>algorithm = n, status = ''fallback_low_confidence'', result = r,
                attempts = map fst (algorithms e)\<rparr>"
proof -
  from register_loop_first_best [OF assms(1,2)]
  obtain A n a B r where fb: "first_best src_img ref_img (algorithms e) A n a B r"
    and ex: "register_loop e src_img ref_img (algorithms e) None None [] =
             Exhausted (Some r) (Some n) (map fst (algorithms e))"
    by blast
  have "fst (register e src_img ref_img) =
        Inr \<lparr>algorithm = n, status = ''fallback_low_confidence'', result = r,
             attempts = map fst (algorithms e)\<rparr>"
    using ex assms(3) by (simp add: register_def)
  with fb show ?thesis by blast
qed

theorem register_fallback_returns_first_best_witness:
  "enable_fallback (config (fallback_engine True))
   \<and> (\<exists>A n a B r. first_best () () (algorithms (fallback_engine True)) A n a B r \<and>
           fst (register (fallback_engine True) () ()) =
           Inr \<lparr>algorithm = n, status = ''fallback_low_confidence'', result = r,
                attempts = map fst (algorithms (fallback_engine True))\<rparr>)
   \<and> fst (register (fallback_engine True) () ()) =
       Inr \<lparr>algorithm = ''SIFT'', status = ''fallback_low_confidence'', result = mediocre_result,
            attempts = [''ORB'', ''SIFT'', ''AKAZE'']\<rparr>"
proof -
  have h3: "enable_fallback (config (fallback_engine True))"
    by (simp add: fallback_engine_def)
  have v: "fst (register (fallback_engine True) () ()) =
       Inr \<lparr>algorithm = ''SIFT'', status = ''fallback_low_confidence'', result = mediocre_result,
            attempts = [''ORB'', ''SIFT'', ''AKAZE'']\<rparr>"
    by (simp add: register_def fallback_engine_def MockAlgorithm_def is_acceptable_def
        EngineConfig_default_def poor_result_def mediocre_result_def Let_def)
  from register_fallback_returns_first_best
    [OF fallback_engine_no_acceptable fallback_engine_some_result h3]
  show ?thesis using h3 v by blast
qed

subsection \<open>Failure when fallback is disabled\<close>

text \<open>
  Claim C3, as the code has it. With \<^verbatim>\<open>enable_fallback\<close> false, when at least one algorithm
  returns a result and none passes the thresholds, \<^verbatim>\<open>register\<close> raises a
  \<^verbatim>\<open>RegistrationError\<close> whose message reports the two configured thresholds and the best
  score achieved (that of the earliest result of maximal score) and names the algorithm
  that achieved it.
\<close>

theorem register_no_fallback_raises:
  assumes "no_acceptable e src_img ref_img (algorithms e)"
    and "\<exists>(n, a)\<in>set (algorithms e). \<exists>r. align a src_img ref_img = Returns (Some r)"
    and "\<not> enable_fallback (config e)"
  shows "\<exists>A n a B r m. first_best src_img ref_img (algorithms e) A n a B r \<and>
           fst (register e src_img ref_img) = Inl (Exn RegistrationError m) \<and>
           m = [Text ''No alignment met quality thresholds (min_score='',
                FloatRepr (min_score (config e)),
                Text '', min_inlier_ratio='',
                FloatRepr (min_inlier_ratio (config e)),
                Text ''). Best score: '',
                Float3f (score r),
                Text ('' from '' @ n)] \<and>
           mentions m n"
proof -
  from register_loop_first_best [OF assms(1,2)]
  obtain A n a B r where fb: "first_best src_img ref_img (algorithms e) A n a B r"
    and ex: "register_loop e src_img ref_img (algorithms e) None None [] =
             Exhausted (Some r) (Some n) (map fst (algorithms e))"
    by blast
  let ?m = "[Text ''No alignment met quality thresholds (min_score='',
             FloatRepr (min_score (config e)),
             Text '', min_inlier_ratio='',
             FloatRepr (min_inlier_ratio (config e)),
             Text ''). Best score: '',
             Float3f (score r),
             Text ('' from '' @ n)]"
  have "fst (register e src_img ref_img) = Inl (Exn RegistrationError ?m)"
    using ex assms(3) by (simp add: register_def)
  moreover have "mentions ?m n"
    using mentions_last_text
      [of "[Text ''No alignment met quality thresholds (min_score='',
            FloatRepr (min_score (config e)),
            Text '', min_inlier_ratio='',
            FloatRepr (min_inlier_ratio (config e)),
            Text ''). Best score: '',
            Float3f (score r)]" "'' from ''" n]
    by simp
  ultimately show ?thesis using fb by blast
qed

theorem register_no_fallback_raises_witness:
  "\<not> enable_fallback (config (fallback_engine False))
   \<and> (\<exists>A n a B r m. first_best () () (algorithms (fallback_engine False)) A n a B r \<and>
           fst (register (fallback_engine False) () ()) = Inl (Exn RegistrationError m) \<and>
           m = [Text ''No alignment met quality thresholds (min_score='',
                FloatRepr (min_score (config (fallback_engine False))),
                Text '', min_inlier_ratio='',
                FloatRepr (min_inlier_ratio (config (fallback_engine False))),
                Text ''). Best score: '',
                Float3f (score r),
                Text ('' from '' @ n)] \<and>
           mentions m n)
   \<and> fst (register (fallback_engine False) () ()) =
           Inl (Exn RegistrationError
             [Text ''No alignment met quality thresholds (min_score='',
              FloatRepr 0.85,
              Text '', min_inlier_ratio='',
              FloatRepr 0.6,
              Text ''). Best score: '',
              Float3f 0.70,
              Text '' from SIFT''])"
proof -
  have h3: "\<not> enable_fallback (config (fallback_engine False))"
    by (simp add: fallback_engine_def)
  have v: "fst (register (fallback_engine False) () ()) =
           Inl (Exn RegistrationError
             [Text ''No alignment met quality thresholds (min_score='',
              FloatRepr 0.85,
              Text '', min_inlier_ratio='',
              FloatRepr 0.6,
              Text ''). Best score: '',
              Float3f 0.70,
              Text '' from SIFT''])"
    by (simp add: register_def fallback_engine_def MockAlgorithm_def is_acceptable_def
        EngineConfig_default_def poor_result_def mediocre_result_def Let_def)
  from register_no_fallback_raises
    [OF fallback_engine_no_acceptable fallback_engine_some_result h3]
  show ?thesis using h3 v by blast
qed

text \<open>
  The message of that call and the names it lacks. \<^verbatim>\<open>ORB\<close> and \<^verbatim>\<open>AKAZE\<close> hold no numeric
  character, so by \<open>render_mentions\<close> they occur nowhere in the string of the message,
  whatever text Python gives the three numbers.
\<close>

lemma fallback_message_skeleton:
  "\<not> mentions
       [Text ''No alignment met quality thresholds (min_score='',
        FloatRepr 0.85,
        Text '', min_inlier_ratio='',
        FloatRepr 0.6,
        Text ''). Best score: '',
        Float3f 0.70,
        Text '' from SIFT''] ''ORB''
   \<and> \<not> mentions
       [Text ''No alignment met quality thresholds (min_score='',
        FloatRepr 0.85,
        Text '', min_inlier_ratio='',
        FloatRepr 0.6,
        Text ''). Best score: '',
        Float3f 0.70,
        Text '' from SIFT''] ''AKAZE''"
  by (simp add: mentions_def skeleton_def sublist_code prefix_code)

lemma fallback_message_rendered:
  assumes "numeric_rendering num"
  shows "\<not> sublist ''ORB'' (render num
       [Text ''No alignment met quality thresholds (min_score='',
        FloatRepr 0.85,
        Text '', min_inlier_ratio='',
        FloatRepr 0.6,
        Text ''). Best score: '',
        Float3f 0.70,
        Text '' from SIFT''])
   \<and> \<not> sublist ''AKAZE'' (render num
       [Text ''No alignment met quality thresholds (min_score='',
        FloatRepr 0.85,
        Text '', min_inlier_ratio='',
        FloatRepr 0.6,
        Text ''). Best score: '',
        Float3f 0.70,
        Text '' from SIFT''])"
proof -
  have "''ORB'' \<noteq> [] \<and> set ''ORB'' \<inter> set numeric_chars = {}"
    by (simp add: numeric_chars_def)
  moreover have "''AKAZE'' \<noteq> [] \<and> set ''AKAZE'' \<inter> set numeric_chars = {}"
    by (simp add: numeric_chars_def)
  ultimately show ?thesis
    using render_mentions [OF assms] fallback_message_skeleton by blast
qed

text \<open>
  Claim C3 as stated asks that the message name every attempted algorithm. With
  \<^verbatim>\<open>ORB\<close>, \<^verbatim>\<open>SIFT\<close> and \<^verbatim>\<open>AKAZE\<close> tried and \<^verbatim>\<open>SIFT\<close> the best, the message names
  neither \<^verbatim>\<open>ORB\<close> nor \<^verbatim>\<open>AKAZE\<close>.
\<close>

theorem register_no_fallback_message_counterexample:
  "fst (register (fallback_engine False) () ()) =
     Inl (Exn RegistrationError
       [Text ''No alignment met quality thresholds (min_score='',
        FloatRepr 0.85,
        Text '', min_inlier_ratio='',
        FloatRepr 0.6,
        Text ''). Best score: '',
        Float3f 0.70,
        Text '' from SIFT''])
   \<and> map fst (algorithms (fallback_engine False)) = [''ORB'', ''SIFT'', ''AKAZE'']
   \<and> \<not> mentions
       [Text ''No alignment met quality thresholds (min_score='',
        FloatRepr 0.85,
        Text '', min_inlier_ratio='',
        FloatRepr 0.6,
        Text ''). Best score: '',
        Float3f 0.70,
        Text '' from SIFT''] ''ORB''
   \<and> \<not> mentions
       [Text ''No alignment met quality thresholds (min_score='',
        FloatRepr 0.85,
        Text '', min_inlier_ratio='',
        FloatRepr 0.6,
        Text ''). Best score: '',
        Float3f 0.70,
        Text '' from SIFT''] ''AKAZE''"
proof -
  have v: "fst (register (fallback_engine False) () ()) =
           Inl (Exn RegistrationError
             [Text ''No alignment met quality thresholds (min_score='',
              FloatRepr 0.85,
              Text '', min_inlier_ratio='',
              FloatRepr 0.6,
              Text ''). Best score: '',
              Float3f 0.70,
              Text '' from SIFT''])"
    by (simp add: register_def fallback_engine_def MockAlgorithm_def is_acceptable_def
        EngineConfig_default_def poor_result_def mediocre_result_def Let_def)
  have n: "map fst (algorithms (fallback_engine False)) = [''ORB'', ''SIFT'', ''AKAZE'']"
    by (simp add: fallback_engine_def)
  show ?thesis using v n fallback_message_skeleton by simp
qed

subsection \<open>Failure when no algorithm produces a result\<close>

lemma join_mentions: "n \<in> set xs \<Longrightarrow> sublist n (join sep xs)"
proof (induction sep xs rule: join.induct)
  case (1 sep)
  then show ?case by simp
next
  case (2 sep x)
  then show ?case by simp
next
  case (3 sep x y ys)
  show ?case
  proof (cases "n = x")
    case True
    then show ?thesis by simp
  next
    case False
    then have "sublist n (join sep (y # ys))" using 3 by simp
    then obtain ps ss where "join sep (y # ys) = ps @ n @ ss"
      by (auto simp: sublist_def)
    then have "join sep (x # y # ys) = (x @ sep @ ps) @ n @ ss" by simp
    then show ?thesis unfolding sublist_def by blast
  qed
qed

lemma register_loop_all_empty:
  "\<forall>(n, a)\<in>set items. align a s rf = Returns None \<or> (\<exists>x. align a s rf = Raises x) \<Longrightarrow>
   register_loop self s rf items b bn t = Exhausted b bn (t @ map fst items)"
proof (induction items arbitrary: t)
  case Nil
  then show ?case by simp
next
  case (Cons p items)
  obtain n a where p: "p = (n, a)" by (cases p)
  from Cons.prems p have "align a s rf = Returns None \<or> (\<exists>x. align a s rf = Raises x)"
    by simp
  moreover have "register_loop self s rf items b bn (t @ [n]) =
                 Exhausted b bn ((t @ [n]) @ map fst items)"
    using Cons.IH [of "t @ [n]"] Cons.prems by simp
  ultimately show ?case using p by auto
qed

text \<open>
  Claim C6. When every registered algorithm returns \<^verbatim>\<open>None\<close> or raises, \<^verbatim>\<open>register\<close>
  raises a \<^verbatim>\<open>RegistrationError\<close> whose message ends with the names of all registered
  algorithms, in registry order and separated by a comma and a space; so every
  attempted name occurs in the message.
\<close>

theorem register_all_empty_raises:
  assumes "\<forall>(n, a)\<in>set (algorithms e).
             align a src_img ref_img = Returns None \<or> (\<exists>x. align a src_img ref_img = Raises x)"
  shows "\<exists>m. fst (register e src_img ref_img) = Inl (Exn RegistrationError m)
           \<and> m = [Text (''No alignment produced a valid homography. Attempted: ''
                        @ join '', '' (map fst (algorithms e)))]
           \<and> (\<forall>n\<in>set (map fst (algorithms e)). mentions m n)"
proof -
  let ?m = "[Text (''No alignment produced a valid homography. Attempted: ''
                        @ join '', '' (map fst (algorithms e)))]"
  have "register_loop e src_img ref_img (algorithms e) None None [] =
        Exhausted None None ([] @ map fst (algorithms e))"
    using assms by (rule register_loop_all_empty)
  then have "fst (register e src_img ref_img) = Inl (Exn RegistrationError ?m)"
    by (simp add: register_def)
  moreover have "\<forall>n\<in>set (map fst (algorithms e)). mentions ?m n"
  proof
    fix n assume "n \<in> set (map fst (algorithms e))"
    then have "sublist n (join '', '' (map fst (algorithms e)))"
      by (rule join_mentions)
    then obtain ps ss where "join '', '' (map fst (algorithms e)) = ps @ n @ ss"
      by (auto simp: sublist_def)
    then have "''No alignment produced a valid homography. Attempted: ''
                 @ join '', '' (map fst (algorithms e))
               = (''No alignment produced a valid homography. Attempted: '' @ ps) @ n @ ss"
      by simp
    then have "sublist n (''No alignment produced a valid homography. Attempted: ''
                 @ join '', '' (map fst (algorithms e)))"
      unfolding sublist_def by blast
    then have "sublist (map Some n)
                 (map Some (''No alignment produced a valid homography. Attempted: ''
                    @ join '', '' (map fst (algorithms e))))"
      by (rule map_mono_sublist)
    then show "mentions ?m n" by (simp add: mentions_def skeleton_def)
  qed
  ultimately show ?thesis by blast
qed

theorem register_all_empty_raises_witness:
  "align (MockAlgorithm None) () () = Returns None
   \<and> align FailingAlgorithm () () = Raises (Exn RuntimeError [Text ''Simulated algorithm failure''])
   \<and> fst (register \<lparr>algorithms = [(''SIFT'', MockAlgorithm None), (''Fail1'', FailingAlgorithm)],
                     config = EngineConfig_default\<rparr> () ()) =
       Inl (Exn RegistrationError
         [Text ''No alignment produced a valid homography. Attempted: SIFT, Fail1''])
   \<and> mentions [Text ''No alignment produced a valid homography. Attempted: SIFT, Fail1''] ''SIFT''
   \<and> mentions [Text ''No alignment produced a valid homography. Attempted: SIFT, Fail1''] ''Fail1''"
proof -
  let ?e = "\<lparr>algorithms = [(''SIFT'', MockAlgorithm None), (''Fail1'', FailingAlgorithm)],
                     config = EngineConfig_default\<rparr>"
  have h1: "align (MockAlgorithm None) () () = Returns None"
    by (simp add: MockAlgorithm_def)
  have h2: "align FailingAlgorithm () () = Raises (Exn RuntimeError [Text ''Simulated algorithm failure''])"
    by (simp add: FailingAlgorithm_def)
  have h: "\<forall>(n, a)\<in>set (algorithms ?e).
             align a () () = Returns None \<or> (\<exists>x. align a () () = Raises x)"
    using h1 h2 by simp
  from register_all_empty_raises [OF h]
  show ?thesis using h1 h2 by simp
qed

subsection \<open>A raising algorithm\<close>

lemma register_finish:
  "register self s rf = (finish self (register_loop self s rf (algorithms self) None None []), self)"
  by (simp add: register_def split: loop_exit.splits option.splits)

lemma register_loop_raw_within_contract:
  fixes self :: "('i, 'h, 'm) AlgorithmBase ImageRegistrationEngine"
    and self' :: "('i, 'h, 'm) RawAlgorithm ImageRegistrationEngine"
  shows "config self' = config self \<Longrightarrow>
   register_loop_raw self' s rf (map (\<lambda>(n, a). (n, within_contract a)) items) b bn t =
   Inr (register_loop self s rf items b bn t)"
proof (induction items arbitrary: b bn t)
  case Nil
  then show ?case by simp
next
  case (Cons p items)
  obtain n0 a0 where p: "p = (n0, a0)" by (cases p)
  have "is_acceptable self' r = is_acceptable self r" for r :: "('h, 'm) RegistrationResult"
    using Cons.prems by (simp add: is_acceptable_def)
  then show ?case
    using Cons.IH [OF Cons.prems] p
    by (simp add: within_contract_def Let_def split: align_outcome.splits option.splits)
qed

lemma register_raw_within_contract:
  fixes e :: "('i, 'h, 'm) AlgorithmBase ImageRegistrationEngine"
  shows "fst (register_raw \<lparr>algorithms = map (\<lambda>(n, a). (n, within_contract a)) (algorithms e),
                      config = config e\<rparr> s rf) = Inr (fst (register e s rf))"
proof -
  let ?e' = "\<lparr>algorithms = map (\<lambda>(n, a). (n, within_contract a)) (algorithms e),
              config = config e\<rparr>"
  have "register_loop_raw ?e' s rf (algorithms ?e') None None [] =
        Inr (register_loop e s rf (algorithms e) None None [])"
    using register_loop_raw_within_contract [of ?e' e s rf "algorithms e" None None "[]"]
    by simp
  moreover have "finish ?e' ex = finish e ex" for ex :: "('h, 'm) loop_exit"
    by (cases ex) (simp_all split: option.splits)
  ultimately show ?thesis by (simp add: register_raw_def register_finish)
qed









subsection \<open>The engine after a call\<close>

lemma deref_append:
  "deref h a = Some x \<Longrightarrow> deref (h @ xs) a = Some x"
  by (auto simp: deref_def nth_append split: if_splits)

lemma engine_at_append:
  "engine_at h self = Some e \<Longrightarrow> engine_at (h @ xs) self = Some e"
  by (auto simp: engine_at_def deref_append split: option.splits pyobj.splits)

lemma deref_fresh: "deref (h @ [x]) (length h) = Some x"
  by (simp add: deref_def)

lemma list_append_fresh:
  "list_append (h @ [ListObj t]) (length h) x = Some (h @ [ListObj (t @ [x])])"
  by (simp add: list_append_def deref_fresh)

lemma register_loop_heap_refines:
  fixes e :: "('i, 'h, 'm) AlgorithmBase ImageRegistrationEngine"
  assumes "engine_at h self = Some e"
  shows "register_loop_heap (h @ [ListObj t]) self s rf items b bn (length h) =
         (Inr (register_loop e s rf items b bn t),
          h @ [ListObj (exit_attempts (register_loop e s rf items b bn t))])"
proof (induction items arbitrary: b bn t)
  case Nil
  show ?case by (simp add: deref_fresh)
next
  case (Cons p items)
  obtain n0 a0 where p: "p = (n0, a0)" by (cases p)
  have eng: "engine_at (h @ [ListObj (t @ [n0])]) self = Some e"
    using assms by (rule engine_at_append)
  show ?case
    using Cons.IH [where t = "t @ [n0]"] eng
    by (simp add: p list_append_fresh deref_fresh Let_def
        split: align_outcome.splits option.splits)
qed

lemma register_heap_refines:
  fixes e :: "('i, 'h, 'm) AlgorithmBase ImageRegistrationEngine"
  assumes "engine_at h self = Some e"
  shows "register_heap h self s rf =
         (fst (register e s rf),
          h @ [ListObj (exit_attempts (register_loop e s rf (algorithms e) None None []))])"
proof -
  have e0: "engine_at (h @ [ListObj []]) self = Some e"
    using assms by (rule engine_at_append)
  have e1: "engine_at (h @ [ListObj t]) self = Some e" for t
    using assms by (rule engine_at_append)
  show ?thesis
    by (simp add: register_heap_def Let_def e0 e1 register_loop_heap_refines [OF assms]
        register_finish)
qed

text \<open>
  Claim C9. A call of \<^verbatim>\<open>register\<close> on an engine object changes no object that was in
  the store: it only allocates the list of attempts and appends to it. So the engine
  object stands for the same engine after the call, registry (entries and their order)
  and configuration, whatever the call returns or raises; the call gives what
  \<open>register\<close> gives on that engine; and a second call on the store the first one left
  gives what it would have given without the first.
\<close>

theorem register_heap_leaves_engine_unchanged:
  fixes e :: "('i, 'h, 'm) AlgorithmBase ImageRegistrationEngine"
  assumes "engine_at h self = Some e"
  shows "take (length h) (snd (register_heap h self src_img ref_img)) = h
     \<and> engine_at (snd (register_heap h self src_img ref_img)) self = Some e
     \<and> fst (register_heap h self src_img ref_img) = fst (register e src_img ref_img)
     \<and> fst (register_heap (snd (register_heap h self src_img ref_img)) self src_img' ref_img') =
         fst (register_heap h self src_img' ref_img')"
proof -
  let ?h' = "snd (register_heap h self src_img ref_img)"
  have h': "?h' = h @ [ListObj (exit_attempts
                    (register_loop e src_img ref_img (algorithms e) None None []))]"
    by (simp add: register_heap_refines [OF assms])
  have 1: "take (length h) ?h' = h" by (simp add: h')
  have 2: "engine_at ?h' self = Some e"
    unfolding h' using assms by (rule engine_at_append)
  have 3: "fst (register_heap h self src_img ref_img) = fst (register e src_img ref_img)"
    by (simp add: register_heap_refines [OF assms])
  have "fst (register_heap ?h' self src_img' ref_img') = fst (register e src_img' ref_img')"
    by (simp add: register_heap_refines [OF 2])
  then have 4: "fst (register_heap ?h' self src_img' ref_img') =
                fst (register_heap h self src_img' ref_img')"
    by (simp add: register_heap_refines [OF assms])
  from 1 2 3 4 show ?thesis by blast
qed

theorem register_heap_leaves_engine_unchanged_witness:
  "engine_at (fallback_store True) 2 = Some (fallback_engine True)
   \<and> snd (register_heap (fallback_store True) 2 () ()) =
       fallback_store True @ [ListObj [''ORB'', ''SIFT'', ''AKAZE'']]
   \<and> engine_at (snd (register_heap (fallback_store True) 2 () ())) 2 = Some (fallback_engine True)
   \<and> fst (register_heap (fallback_store True) 2 () ()) =
       Inr \<lparr>algorithm = ''SIFT'', status = ''fallback_low_confidence'', result = mediocre_result,
            attempts = [''ORB'', ''SIFT'', ''AKAZE'']\<rparr>
   \<and> fst (register_heap (snd (register_heap (fallback_store True) 2 () ())) 2 () ()) =
       fst (register_heap (fallback_store True) 2 () ())
   \<and> engine_at (fallback_store False) 2 = Some (fallback_engine False)
   \<and> snd (register_heap (fallback_store False) 2 () ()) =
       fallback_store False @ [ListObj [''ORB'', ''SIFT'', ''AKAZE'']]
   \<and> engine_at (snd (register_heap (fallback_store False) 2 () ())) 2 =
       Some (fallback_engine False)
   \<and> fst (register_heap (fallback_store False) 2 () ()) =
       fst (register (fallback_engine False) () ())"
proof -
  have h: "engine_at (fallback_store True) 2 = Some (fallback_engine True)"
    by (simp add: engine_at_def deref_def fallback_store_def)
  have hF: "engine_at (fallback_store False) 2 = Some (fallback_engine False)"
    by (simp add: engine_at_def deref_def fallback_store_def)
  have sF: "snd (register_heap (fallback_store False) 2 () ()) =
       fallback_store False @ [ListObj [''ORB'', ''SIFT'', ''AKAZE'']]"
    by (simp add: register_heap_def engine_at_def deref_def list_append_def fallback_store_def
        fallback_engine_def MockAlgorithm_def is_acceptable_def EngineConfig_default_def
        poor_result_def mediocre_result_def Let_def)
  have s: "snd (register_heap (fallback_store True) 2 () ()) =
       fallback_store True @ [ListObj [''ORB'', ''SIFT'', ''AKAZE'']]"
    by (simp add: register_heap_def engine_at_def deref_def list_append_def fallback_store_def
        fallback_engine_def MockAlgorithm_def is_acceptable_def EngineConfig_default_def
        poor_result_def mediocre_result_def Let_def)
  have v: "fst (register (fallback_engine True) () ()) =
       Inr \<lparr>algorithm = ''SIFT'', status = ''fallback_low_confidence'', result = mediocre_result,
            attempts = [''ORB'', ''SIFT'', ''AKAZE'']\<rparr>"
    by (simp add: register_def fallback_engine_def MockAlgorithm_def is_acceptable_def
        EngineConfig_default_def poor_result_def mediocre_result_def Let_def)
  from register_heap_leaves_engine_unchanged [OF h, of "()" "()" "()" "()"]
    register_heap_leaves_engine_unchanged [OF hF, of "()" "()" "()" "()"]
  show ?thesis using h s v hF sF by simp
qed

subsection \<open>Changing the registry\<close>

lemma dict_setitem_present:
  "k \<notin> set (map fst pre) \<Longrightarrow> dict_setitem (pre @ (k, old) # post) k v = pre @ (k, v) # post"
  by (induction pre) auto

lemma dict_setitem_absent:
  "k \<notin> set (map fst d) \<Longrightarrow> dict_setitem d k v = d @ [(k, v)]"
  by (induction d) auto

text \<open>
  Claim C10. \<^verbatim>\<open>register_algorithm\<close> with a name that is in the registry replaces the
  stored algorithm and keeps the name where it stands in the iteration order; with a
  new name it appends the entry after all others.
\<close>

theorem register_algorithm_keeps_position:
  "(algorithms e = pre @ (name, old) # post \<and> name \<notin> set (map fst pre) \<longrightarrow>
      register_algorithm e name algo = e\<lparr>algorithms := pre @ (name, algo) # post\<rparr>)
   \<and> (name \<notin> set (map fst (algorithms e)) \<longrightarrow>
      register_algorithm e name algo = e\<lparr>algorithms := algorithms e @ [(name, algo)]\<rparr>)"
  by (simp add: register_algorithm_def dict_setitem_present dict_setitem_absent)

theorem register_algorithm_keeps_position_witness:
  "map fst (algorithms (register_algorithm (fallback_engine True) ''SIFT'' FailingAlgorithm))
     = [''ORB'', ''SIFT'', ''AKAZE'']
   \<and> register_algorithm (fallback_engine True) ''SIFT'' FailingAlgorithm =
       (fallback_engine True)\<lparr>algorithms :=
          [(''ORB'', MockAlgorithm (Some poor_result))] @ (''SIFT'', FailingAlgorithm)
          # [(''AKAZE'', MockAlgorithm (Some (mediocre_result\<lparr>inlier_ratio := 0.5\<rparr>)))]\<rparr>
   \<and> register_algorithm (fallback_engine True) ''BRISK'' FailingAlgorithm =
       (fallback_engine True)\<lparr>algorithms :=
          algorithms (fallback_engine True) @ [(''BRISK'', FailingAlgorithm)]\<rparr>"
proof -
  have h1: "algorithms (fallback_engine True) =
          [(''ORB'', MockAlgorithm (Some poor_result))]
          @ (''SIFT'', MockAlgorithm (Some mediocre_result))
          # [(''AKAZE'', MockAlgorithm (Some (mediocre_result\<lparr>inlier_ratio := 0.5\<rparr>)))]
        \<and> ''SIFT'' \<notin> set (map fst [(''ORB'', MockAlgorithm (Some poor_result))])"
    by (simp add: fallback_engine_def)
  have h2: "''BRISK'' \<notin> set (map fst (algorithms (fallback_engine True)))"
    by (simp add: fallback_engine_def)
  have a: "register_algorithm (fallback_engine True) ''SIFT'' FailingAlgorithm =
       (fallback_engine True)\<lparr>algorithms :=
          [(''ORB'', MockAlgorithm (Some poor_result))] @ (''SIFT'', FailingAlgorithm)
          # [(''AKAZE'', MockAlgorithm (Some (mediocre_result\<lparr>inlier_ratio := 0.5\<rparr>)))]\<rparr>"
    using register_algorithm_keeps_position
      [of "fallback_engine True" "[(''ORB'', MockAlgorithm (Some poor_result))]" "''SIFT''"
          "MockAlgorithm (Some mediocre_result)"
          "[(''AKAZE'', MockAlgorithm (Some (mediocre_result\<lparr>inlier_ratio := 0.5\<rparr>)))]"
          FailingAlgorithm] h1
    by blast
  have b: "register_algorithm (fallback_engine True) ''BRISK'' FailingAlgorithm =
       (fallback_engine True)\<lparr>algorithms :=
          algorithms (fallback_engine True) @ [(''BRISK'', FailingAlgorithm)]\<rparr>"
    using register_algorithm_keeps_position
      [of "fallback_engine True" _ "''BRISK''" _ _ FailingAlgorithm] h2
    by blast
  show ?thesis using a b by simp
qed

subsection \<open>Configuration failures\<close>

text \<open>
  Claim C4, as the code has it. Constructing the engine with no algorithm fails with a
  \<^verbatim>\<open>ConfigurationError\<close>, and so does removing the only algorithm of the registry.
  Constructing a configuration with \<^verbatim>\<open>min_score\<close> or \<^verbatim>\<open>min_inlier_ratio\<close> outside
  \<open>[0, 1]\<close> fails with a \<^verbatim>\<open>ValueError\<close>.
\<close>

theorem configuration_failures:
  "ImageRegistrationEngine_init [] cfg =
     Inl (Exn ConfigurationError [Text ''At least one algorithm must be provided''])
   \<and> (\<not> (0 \<le> ms \<and> ms \<le> 1) \<or> \<not> (0 \<le> mir \<and> mir \<le> 1) \<longrightarrow>
        (\<exists>m. EngineConfig_init ms mir fb = Inl (Exn ValueError m)))
   \<and> (algorithms e = [(name, a)] \<longrightarrow>
        unregister_algorithm e name =
          Inl (Exn ConfigurationError [Text ''Cannot remove the last algorithm'']))"
  by (auto simp: ImageRegistrationEngine_init_def EngineConfig_init_def unregister_algorithm_def)

theorem configuration_failures_witness:
  "ImageRegistrationEngine_init ([] :: (string \<times> (unit, int list list, unit) AlgorithmBase) list) None =
     Inl (Exn ConfigurationError [Text ''At least one algorithm must be provided''])
   \<and> (\<exists>m. EngineConfig_init 0.85 (-0.1) True = Inl (Exn ValueError m))
   \<and> unregister_algorithm
        \<lparr>algorithms = [(''SIFT'', MockAlgorithm (Some good_result))],
         config = EngineConfig_default\<rparr> ''SIFT'' =
       Inl (Exn ConfigurationError [Text ''Cannot remove the last algorithm''])"
  using configuration_failures
    [of None "0.85" "-0.1" True
        "\<lparr>algorithms = [(''SIFT'', MockAlgorithm (Some good_result))], config = EngineConfig_default\<rparr>"
        "''SIFT''" "MockAlgorithm (Some good_result)"]
  by simp

text \<open>
  Claim C4 as stated asks for a \<^verbatim>\<open>ConfigurationError\<close> from the configuration too. A
  \<^verbatim>\<open>min_score\<close> of 1.5 raises a \<^verbatim>\<open>ValueError\<close>, which is no \<^verbatim>\<open>ConfigurationError\<close>.
\<close>

theorem EngineConfig_init_raises_ValueError_counterexample:
  "EngineConfig_init 1.5 0.6 True =
     Inl (Exn ValueError [Text ''min_score must be in [0.0, 1.0], got '', FloatRepr 1.5])
   \<and> \<not> issubclass ValueError ConfigurationError"
  by (simp add: EngineConfig_init_def)

subsection \<open>Removing a name that is not registered\<close>

text \<open>
  Claim C5 at the input where the code departs from it: on a registry whose only entry
  is \<^verbatim>\<open>SIFT\<close>, removing the absent name \<^verbatim>\<open>ORB\<close> would leave the registry as it is, yet
  \<^verbatim>\<open>unregister_algorithm\<close> raises the \<^verbatim>\<open>ConfigurationError\<close> of the last algorithm: the
  length of the registry is tested before the presence of the name.
\<close>

theorem unregister_absent_from_single_raises:
  "unregister_algorithm
     \<lparr>algorithms = [(''SIFT'', MockAlgorithm (Some good_result))],
      config = EngineConfig_default\<rparr> ''ORB'' =
   Inl (Exn ConfigurationError [Text ''Cannot remove the last algorithm''])
   \<and> ''ORB'' \<notin> set (map fst [(''SIFT'', MockAlgorithm (Some good_result))])"
  by (simp add: unregister_algorithm_def)

end
